theory Spec2Isabelle
  imports Complex_Main "HOL-Library.Sublist"
begin

section \<open>Strings\<close>

text \<open>
  A Python string is the list of its code points. What Python's own string library
  decides is not in the repository and is taken as a parameter of the model: which code
  points \<open>\w\<close> matches, which ones \<open>str.isspace\<close> accepts (the white space of
  \<open>str.strip\<close> and \<open>str.split\<close>), what \<open>str.lower\<close> returns, and when a literal of a
  pattern matches a character under \<open>re.IGNORECASE\<close>. A theorem that needs a fact about
  these tables states it as a hypothesis.
\<close>

type_synonym ustring = "nat list"

record pystr =
  word_char :: "nat \<Rightarrow> bool"
  space_char :: "nat \<Rightarrow> bool"
  str_lower :: "ustring \<Rightarrow> ustring"
  same_ignoring_case :: "nat \<Rightarrow> nat \<Rightarrow> bool"

text \<open>The code points of a literal of the source.\<close>

definition cp :: "string \<Rightarrow> ustring" where
  "cp s = map of_char s"

definition py_strip :: "pystr \<Rightarrow> ustring \<Rightarrow> ustring" where
  "py_strip L s = rev (dropWhile (space_char L) (rev (dropWhile (space_char L) s)))"

text \<open>\<open>tokens P cur s\<close>: the maximal runs of characters satisfying \<open>P\<close> in \<open>s\<close>, the run
  \<open>cur\<close> being open on entry.\<close>

fun tokens :: "(nat \<Rightarrow> bool) \<Rightarrow> ustring \<Rightarrow> ustring \<Rightarrow> ustring list" where
  "tokens P cur [] = (if cur = [] then [] else [cur])"
| "tokens P cur (c # cs) =
     (if P c then tokens P (cur @ [c]) cs
      else (if cur = [] then [] else [cur]) @ tokens P [] cs)"

text \<open>\<open>re.findall(r'\w+', s)\<close>\<close>

definition findall_w :: "pystr \<Rightarrow> ustring \<Rightarrow> ustring list" where
  "findall_w L s = tokens (word_char L) [] s"

text \<open>\<open>s.split()\<close>\<close>

definition py_split :: "pystr \<Rightarrow> ustring \<Rightarrow> ustring list" where
  "py_split L s = tokens (\<lambda>c. \<not> space_char L c) [] s"

text \<open>\<open>' '.join(words)\<close>\<close>

fun join_space :: "ustring list \<Rightarrow> ustring" where
  "join_space [] = []"
| "join_space [w] = w"
| "join_space (w # v # ws) = w @ cp '' '' @ join_space (v # ws)"

text \<open>\<open>p in s\<close> on strings: \<open>p\<close> occurs in \<open>s\<close> as a contiguous piece.\<close>

fun substr :: "ustring \<Rightarrow> ustring \<Rightarrow> bool" where
  "substr p [] = (p = [])"
| "substr p (c # cs) = (prefix p (c # cs) \<or> substr p cs)"

section \<open>Regular expressions of the source\<close>

text \<open>\<open>\b\<close> between a character and its successor (\<open>None\<close> at either end of the string).\<close>

definition word_boundary :: "pystr \<Rightarrow> nat option \<Rightarrow> nat option \<Rightarrow> bool" where
  "word_boundary L a b =
     ((case a of None \<Rightarrow> False | Some c \<Rightarrow> word_char L c) \<noteq>
      (case b of None \<Rightarrow> False | Some c \<Rightarrow> word_char L c))"

text \<open>\<open>r'\b' + re.escape(phrase) + r'\b'\<close> matches at the head of \<open>s\<close>, the character
  before it being \<open>prev\<close>.\<close>

definition phrase_at :: "pystr \<Rightarrow> ustring \<Rightarrow> nat option \<Rightarrow> ustring \<Rightarrow> bool" where
  "phrase_at L p prev s =
     (p \<noteq> [] \<and> prefix p s \<and> word_boundary L prev (Some (hd p)) \<and>
      word_boundary L (Some (last p))
        (case drop (length p) s of [] \<Rightarrow> None | d # _ \<Rightarrow> Some d))"

text \<open>\<open>re.sub(r'\b' + re.escape(phrase) + r'\b', '', s)\<close>: a left-to-right scan that deletes
  every match and resumes behind it; \<open>skip\<close> counts the characters of a match still to be
  dropped.\<close>

fun remove_phrase :: "pystr \<Rightarrow> ustring \<Rightarrow> nat option \<Rightarrow> nat \<Rightarrow> ustring \<Rightarrow> ustring" where
  "remove_phrase L p prev skip [] = []"
| "remove_phrase L p prev skip (c # cs) =
     (if 0 < skip then remove_phrase L p (Some c) (skip - 1) cs
      else if phrase_at L p prev (c # cs) then remove_phrase L p (Some c) (length p - 1) cs
      else c # remove_phrase L p (Some c) 0 cs)"

text \<open>The patterns of \<open>build_intent_patterns\<close> have the shape \<open>\b(a1|...|an)\b\<close>, each
  alternative a sequence of literal characters and \<open>.\<close> (any character but the line
  feed); they are searched with \<open>re.IGNORECASE\<close>.\<close>

datatype atom = Lit nat | AnyChar

type_synonym word_pattern = "atom list list"

fun atom_match :: "pystr \<Rightarrow> atom \<Rightarrow> nat \<Rightarrow> bool" where
  "atom_match L (Lit a) c = same_ignoring_case L a c"
| "atom_match L AnyChar c = (c \<noteq> 10)"

fun alt_at :: "pystr \<Rightarrow> atom list \<Rightarrow> nat option \<Rightarrow> ustring \<Rightarrow> bool" where
  "alt_at L [] prev s = word_boundary L prev (case s of [] \<Rightarrow> None | d # _ \<Rightarrow> Some d)"
| "alt_at L (a # as) prev [] = False"
| "alt_at L (a # as) prev (c # cs) = (atom_match L a c \<and> alt_at L as (Some c) cs)"

fun re_search :: "pystr \<Rightarrow> word_pattern \<Rightarrow> nat option \<Rightarrow> ustring \<Rightarrow> bool" where
  "re_search L pat prev [] =
     (word_boundary L prev None \<and> list_ex (\<lambda>a. alt_at L a prev []) pat)"
| "re_search L pat prev (c # cs) =
     ((word_boundary L prev (Some c) \<and> list_ex (\<lambda>a. alt_at L a prev (c # cs)) pat)
      \<or> re_search L pat (Some c) cs)"

definition lits :: "string \<Rightarrow> atom list" where
  "lits s = map Lit (cp s)"

text \<open>\<open>patterns['time_constraint']\<close> of \<open>build_intent_patterns\<close>, in the order of the
  dictionary.\<close>

definition time_constraint_patterns :: "(ustring \<times> word_pattern) list" where
  "time_constraint_patterns =
     [(cp ''quick'', [lits ''quick'', lits ''fast'', lits ''easy'',
                   lits ''30'' @ [AnyChar] @ lits ''min'', lits ''minutes'', lits ''rushed'']),
      (cp ''slow'', [lits ''slow'', lits ''hours'', lits ''all'' @ [AnyChar] @ lits ''day'',
                  lits ''weekend'', lits ''complex''])]"

section \<open>Cleaning the utterance\<close>

definition FILLER_PHRASES :: "ustring list" where
  "FILLER_PHRASES = map cp
     [''give me'', ''show me'', ''can i have'', ''i want'', ''i'' @ [CHR 0x27] @ ''d like'',
      ''please'', ''could you'', ''would you'', ''may i have'', ''let me have'', ''find me'',
      ''get me'', ''i need'', ''i would like'', ''i'' @ [CHR 0x27] @ ''m looking for'',
      ''do you have'', ''i'' @ [CHR 0x27] @ ''d love'', ''i'' @ [CHR 0x27] @ ''d want'',
      ''i wish for'', ''i wish to have'', ''i wish to get'', ''i wish to see'',
      ''recipe'', ''recipes'']"

text \<open>\<open>stop\<close> is scikit-learn's \<open>ENGLISH_STOP_WORDS\<close>, which the repository imports.\<close>

definition clean_user_input :: "pystr \<Rightarrow> ustring list \<Rightarrow> ustring \<Rightarrow> ustring" where
  "clean_user_input L stop user_input =
     (let cleaned = foldl (\<lambda>s phrase. remove_phrase L phrase None 0 s)
                          (str_lower L user_input) FILLER_PHRASES;
          words = filter (\<lambda>w. w \<notin> set stop) (findall_w L cleaned)
      in join_space words)"

section \<open>Similarity scoring\<close>

datatype error =
    InvalidInput      \<comment> \<open>\<open>ValueError("user_input must be a non-empty string after cleaning")\<close>\<close>
  | ShapeMismatch     \<comment> \<open>\<open>ValueError\<close> of \<open>@\<close> on operands of different width\<close>
  | IndexOutOfRange   \<comment> \<open>\<open>IndexError\<close>\<close>
  | AttributeMissing  \<comment> \<open>\<open>AttributeError\<close>\<close>
  | KeyMissing        \<comment> \<open>\<open>KeyError\<close>\<close>
  | TypeMismatch      \<comment> \<open>\<open>TypeError\<close>\<close>

text \<open>Embeddings are vectors of reals; the rounding of floating-point arithmetic is not
  modelled.\<close>

definition dot :: "real list \<Rightarrow> real list \<Rightarrow> real" where
  "dot a b = sum_list (map2 (*) a b)"

definition l2_norm :: "real list \<Rightarrow> real" where
  "l2_norm v = sqrt (sum_list (map (\<lambda>x. x * x) v))"

text \<open>\<open>[(labels[i], sims[i]) for i in top_idx if sims[i] > threshold]\<close>\<close>

fun pick ::
  "ustring list \<Rightarrow> real list \<Rightarrow> real \<Rightarrow> nat list \<Rightarrow> error + (ustring \<times> real) list" where
  "pick labels sims threshold [] = Inr []"
| "pick labels sims threshold (i # idx) =
     (if i < length sims then
        (if sims ! i > threshold then
           (if i < length labels then
              (case pick labels sims threshold idx of
                 Inl e \<Rightarrow> Inl e
               | Inr r \<Rightarrow> Inr ((labels ! i, sims ! i) # r))
            else Inl IndexOutOfRange)
         else pick labels sims threshold idx)
      else Inl IndexOutOfRange)"

text \<open>\<open>best_match\<close>; \<open>asort\<close> is numpy's \<open>argsort\<close>, and a table \<open>ref_embs\<close> is the list of
  its rows.\<close>

definition best_match ::
  "(real list \<Rightarrow> nat list) \<Rightarrow> real list \<Rightarrow> real list list \<Rightarrow> ustring list \<Rightarrow> real \<Rightarrow> nat
   \<Rightarrow> error + (ustring \<times> real) list" where
  "best_match asort user_emb ref_embs labels threshold topn =
     (if length ref_embs = 0 then Inr []
      else if list_ex (\<lambda>r. length r \<noteq> length user_emb) ref_embs then Inl ShapeMismatch
      else
        let sims = map (\<lambda>r. dot r user_emb / (l2_norm r * l2_norm user_emb + 1 / 10 ^ 8))
                       ref_embs;
            top_idx = take topn (rev (asort sims))
        in pick labels sims threshold top_idx)"

section \<open>Intent recognition\<close>

text \<open>The four categories whose labels come from the corpus. The dictionaries
  \<open>intent_embeddings\<close> and \<open>intent_labels\<close> have one entry for each of them and one for
  \<open>'special'\<close>.\<close>

datatype category = Dietary | Cuisine | MealType | Ingredients

record intents =
  dietary :: "ustring list"
  cuisine :: "ustring list"
  meal_type :: "ustring list"
  time_constraint :: "ustring list"
  ingredients :: "ustring list"
  special :: "ustring option"
  matched :: bool

text \<open>What \<open>recognize_intent\<close> receives from its caller: the time-constraint patterns
  of \<open>intent_patterns\<close>, and the embedding tables and label lists.\<close>

record vocabulary =
  time_patterns :: "(ustring \<times> word_pattern) list"
  intent_embeddings :: "category \<Rightarrow> real list list"
  special_embeddings :: "real list list"
  intent_labels :: "category \<Rightarrow> ustring list"
  special_labels :: "ustring list"

text \<open>What the libraries and the runtime supply: the sentence encoder
  (\<open>intent_model.encode\<close> on one sentence), numpy's \<open>argsort\<close>, scikit-learn's stop-word
  list, and the order in which a \<open>for\<close> over \<open>set(xs)\<close> visits the members of the set,
  which Python leaves to the hashes of the run.\<close>

record provider =
  encode :: "ustring \<Rightarrow> real list"
  argsort :: "real list \<Rightarrow> nat list"
  stop_words :: "ustring list"
  iteration :: "ustring list \<Rightarrow> ustring list"

text \<open>\<open>intents[category]\<close> and \<open>intents[category].append(label)\<close>\<close>

fun get_field :: "category \<Rightarrow> intents \<Rightarrow> ustring list" where
  "get_field Dietary i = dietary i"
| "get_field Cuisine i = cuisine i"
| "get_field MealType i = meal_type i"
| "get_field Ingredients i = ingredients i"

fun append_field :: "category \<Rightarrow> ustring \<Rightarrow> intents \<Rightarrow> intents" where
  "append_field Dietary l i = i\<lparr>dietary := dietary i @ [l]\<rparr>"
| "append_field Cuisine l i = i\<lparr>cuisine := cuisine i @ [l]\<rparr>"
| "append_field MealType l i = i\<lparr>meal_type := meal_type i @ [l]\<rparr>"
| "append_field Ingredients l i = i\<lparr>ingredients := ingredients i @ [l]\<rparr>"

definition empty_intents :: intents where
  "empty_intents =
     \<lparr>dietary = [], cuisine = [], meal_type = [], time_constraint = [], ingredients = [],
      special = None, matched = False\<rparr>"

text \<open>The loop over \<open>intent_patterns['time_constraint'].items()\<close>, searching the utterance
  as the user typed it.\<close>

fun time_loop ::
  "pystr \<Rightarrow> ustring \<Rightarrow> (ustring \<times> word_pattern) list \<Rightarrow> intents \<Rightarrow> intents" where
  "time_loop L user_input [] i = i"
| "time_loop L user_input ((key, pattern) # rest) i =
     time_loop L user_input rest
       (if re_search L pattern None user_input
        then i\<lparr>time_constraint := time_constraint i @ [key], matched := True\<rparr>
        else i)"

text \<open>The test of lines 136 to 140 of \<open>intent.py\<close> on one label. \<open>words\<close> is the set;
  \<open>visited\<close> lists its members in the order the generator of \<open>any\<close> visits them.\<close>

definition lexical_match ::
  "pystr \<Rightarrow> ustring set \<Rightarrow> ustring list \<Rightarrow> ustring \<Rightarrow> ustring \<Rightarrow> bool" where
  "lexical_match L words visited user_input_lower label =
     (str_lower L label \<in> words
      \<or> list_ex (\<lambda>word. substr word (str_lower L label)) visited
      \<or> substr (str_lower L label) user_input_lower)"

text \<open>The state of the assignment loop is the record under construction (its \<open>matched\<close>
  field is the local variable \<open>matched\<close>, stored into the dictionary at the end) and the
  set \<open>assigned_labels\<close>.\<close>

type_synonym assign_state = "intents \<times> ustring set"

definition assign :: "category \<Rightarrow> ustring \<Rightarrow> assign_state \<Rightarrow> assign_state" where
  "assign c label s = (append_field c label (fst s)\<lparr>matched := True\<rparr>, insert label (snd s))"

definition confirm_label ::
  "(ustring \<Rightarrow> bool) \<Rightarrow> category \<Rightarrow> assign_state \<Rightarrow> ustring \<Rightarrow> assign_state" where
  "confirm_label conf c s label =
     (if conf label then (if label \<notin> snd s then assign c label s else s) else s)"

definition fill_label :: "category \<Rightarrow> assign_state \<Rightarrow> ustring \<Rightarrow> assign_state" where
  "fill_label c s label = (if label \<notin> snd s then assign c label s else s)"

text \<open>One round of the loop \<open>for category in ['cuisine', 'ingredients', 'meal_type',
  'dietary']\<close>: the inner loop over the candidates and, in the same round, the
  \<open>if not intents[category] and all_matches[category]\<close> block.\<close>

definition category_step ::
  "(ustring \<Rightarrow> bool) \<Rightarrow> (category \<Rightarrow> ustring list) \<Rightarrow> assign_state \<Rightarrow> category
   \<Rightarrow> assign_state" where
  "category_step conf all_matches s c =
     (let s1 = foldl (confirm_label conf c) s (all_matches c)
      in if get_field c (fst s1) = [] \<and> all_matches c \<noteq> []
         then foldl (fill_label c) s1 (all_matches c)
         else s1)"

definition assign_labels ::
  "(ustring \<Rightarrow> bool) \<Rightarrow> (category \<Rightarrow> ustring list) \<Rightarrow> intents \<Rightarrow> assign_state" where
  "assign_labels conf all_matches i =
     foldl (category_step conf all_matches) (i, {}) [Cuisine, Ingredients, MealType, Dietary]"

text \<open>The loop \<open>for category in ['dietary', 'cuisine', 'meal_type', 'ingredients']\<close> that
  fills \<open>all_matches\<close>; the first failing \<open>best_match\<close> ends it.\<close>

fun match_categories ::
  "(category \<Rightarrow> error + (ustring \<times> real) list) \<Rightarrow> category list \<Rightarrow> (category \<Rightarrow> ustring list)
   \<Rightarrow> error + (category \<Rightarrow> ustring list)" where
  "match_categories bm [] all_matches = Inr all_matches"
| "match_categories bm (c # cs) all_matches =
     (case bm c of
        Inl e \<Rightarrow> Inl e
      | Inr matches \<Rightarrow> match_categories bm cs (all_matches(c := map fst matches)))"

definition recognize_intent :: "pystr \<Rightarrow> provider \<Rightarrow> vocabulary \<Rightarrow> ustring \<Rightarrow> error + intents" where
  "recognize_intent L P V user_input =
     (let user_input_cleaned = clean_user_input L (stop_words P) user_input in
      if py_strip L user_input_cleaned = [] then Inl InvalidInput
      else
        let user_emb = encode P user_input_cleaned in
        case best_match (argsort P) user_emb (special_embeddings V) (special_labels V) (5 / 10) 1 of
          Inl e \<Rightarrow> Inl e
        | Inr special_match \<Rightarrow>
            let i1 = (if special_match \<noteq> []
                      then empty_intents\<lparr>special := Some (fst (hd special_match)), matched := True\<rparr>
                      else empty_intents);
                i2 = time_loop L user_input (time_patterns V) i1;
                split_words = py_split L (py_strip L (str_lower L user_input_cleaned));
                words = set split_words;
                visited = iteration P split_words;
                user_input_lower = str_lower L user_input_cleaned
            in case match_categories
                      (\<lambda>c. best_match (argsort P) user_emb (intent_embeddings V c)
                                        (intent_labels V c) (7 / 10) 10)
                      [Dietary, Cuisine, MealType, Ingredients] (\<lambda>c. [])
               of Inl e \<Rightarrow> Inl e
                | Inr all_matches \<Rightarrow>
                    Inr (fst (assign_labels (lexical_match L words visited user_input_lower)
                                all_matches i2)))"

section \<open>Building the embedding index\<close>

text \<open>\<open>compile_model_and_embeddings\<close>: \<open>items\<close> gives, for each category, the keys of
  \<open>intent_patterns[category]\<close>; the table of a category without labels is
  \<open>np.zeros((1, 384))\<close>. The time-constraint patterns are passed on as they are.\<close>

definition compile_model_and_embeddings ::
  "provider \<Rightarrow> (ustring \<times> word_pattern) list \<Rightarrow> (category \<Rightarrow> ustring list) \<Rightarrow> vocabulary" where
  "compile_model_and_embeddings P patterns items =
     \<lparr>time_patterns = patterns,
      intent_embeddings = (\<lambda>c. if items c \<noteq> [] then map (encode P) (items c)
                                else [replicate 384 0]),
      special_embeddings =
        map (encode P) [cp ''hello hi hey greetings'', cp ''bye goodbye exit see you'',
                        cp ''help what can you do commands options''],
      intent_labels = items,
      special_labels = [cp ''greeting'', cp ''goodbye'', cp ''help'']\<rparr>"

section \<open>The assignment of labels as the specification describes it\<close>

text \<open>The specification describes the assignment in two passes: the confirmation of
  the candidates of all four categories (step 6), then the fallback-fill of the
  categories whose field is still empty (step 7). The definitions below follow that
  description; they are compared with \<open>assign_labels\<close> of the source.\<close>

definition confirm_pass ::
  "(ustring \<Rightarrow> bool) \<Rightarrow> (category \<Rightarrow> ustring list) \<Rightarrow> assign_state \<Rightarrow> category
   \<Rightarrow> assign_state" where
  "confirm_pass conf all_matches s c = foldl (confirm_label conf c) s (all_matches c)"

definition fill_pass ::
  "(category \<Rightarrow> ustring list) \<Rightarrow> assign_state \<Rightarrow> category \<Rightarrow> assign_state" where
  "fill_pass all_matches s c =
     (if get_field c (fst s) = [] \<and> all_matches c \<noteq> []
      then foldl (fill_label c) s (all_matches c)
      else s)"

definition spec_assign_labels ::
  "(ustring \<Rightarrow> bool) \<Rightarrow> (category \<Rightarrow> ustring list) \<Rightarrow> intents \<Rightarrow> assign_state" where
  "spec_assign_labels conf all_matches i =
     foldl (fill_pass all_matches)
       (foldl (confirm_pass conf all_matches) (i, {}) [Cuisine, Ingredients, MealType, Dietary])
       [Cuisine, Ingredients, MealType, Dietary]"

definition spec_recognize :: "pystr \<Rightarrow> provider \<Rightarrow> vocabulary \<Rightarrow> ustring \<Rightarrow> error + intents" where
  "spec_recognize L P V user_input =
     (let user_input_cleaned = clean_user_input L (stop_words P) user_input in
      if py_strip L user_input_cleaned = [] then Inl InvalidInput
      else
        let user_emb = encode P user_input_cleaned in
        case best_match (argsort P) user_emb (special_embeddings V) (special_labels V) (5 / 10) 1 of
          Inl e \<Rightarrow> Inl e
        | Inr special_match \<Rightarrow>
            let i1 = (if special_match \<noteq> []
                      then empty_intents\<lparr>special := Some (fst (hd special_match)), matched := True\<rparr>
                      else empty_intents);
                i2 = time_loop L user_input (time_patterns V) i1;
                split_words = py_split L (py_strip L (str_lower L user_input_cleaned));
                words = set split_words;
                visited = iteration P split_words;
                user_input_lower = str_lower L user_input_cleaned
            in case match_categories
                      (\<lambda>c. best_match (argsort P) user_emb (intent_embeddings V c)
                                        (intent_labels V c) (7 / 10) 10)
                      [Dietary, Cuisine, MealType, Ingredients] (\<lambda>c. [])
               of Inl e \<Rightarrow> Inl e
                | Inr all_matches \<Rightarrow>
                    Inr (fst (spec_assign_labels (lexical_match L words visited user_input_lower)
                                all_matches i2)))"

section \<open>Recipe filtering\<close>

text \<open>A cell of the \<open>tags\<close> or \<open>ingredients\<close> column is a list or something else; an
  element of such a list is a string or another value, kept with the text \<open>str\<close>
  gives it. A cell of the \<open>minutes\<close> column is a number, a missing value or something
  that does not compare with a number.\<close>

datatype elem = Str ustring | NonStr ustring

datatype cell = ListCell "elem list" | NotList

datatype number = Num real | NaN | NotNum

record recipe =
  name :: ustring
  minutes :: number
  recipe_tags :: cell
  recipe_ingredients :: cell

text \<open>A data frame is the list of its rows, in index order, under the columns of the
  corpus; \<open>NoColumns\<close> is the frame without rows and without columns.\<close>

datatype frame = Frame "recipe list" | NoColumns

fun rows_of :: "frame \<Rightarrow> recipe list" where
  "rows_of (Frame rs) = rs"
| "rows_of NoColumns = []"

fun str_of :: "elem \<Rightarrow> ustring" where
  "str_of (Str s) = s"
| "str_of (NonStr s) = s"

text \<open>\<open>series.apply(f)\<close> on a Series with rows and the selection of the rows whose mask is
  true; the first row on which \<open>f\<close> raises ends the call.\<close>

fun row_mask :: "(recipe \<Rightarrow> error + bool) \<Rightarrow> recipe list \<Rightarrow> error + recipe list" where
  "row_mask f [] = Inr []"
| "row_mask f (r # rs) =
     (case f r of
        Inl e \<Rightarrow> Inl e
      | Inr b \<Rightarrow>
          (case row_mask f rs of
             Inl e \<Rightarrow> Inl e
           | Inr out \<Rightarrow> Inr (if b then r # out else out)))"

text \<open>\<open>df = df[df[col].apply(f)]\<close>. Reading a column of a frame without columns raises
  \<open>KeyError\<close>. What pandas returns for this expression on a frame with columns and no
  rows is not fixed by the repository: the mask is then an empty Series, and the frame
  that comes back either keeps its columns or has none. The model takes that behaviour
  as the parameter \<open>keeps_columns\<close>.\<close>

definition mask_by_apply :: "bool \<Rightarrow> (recipe \<Rightarrow> error + bool) \<Rightarrow> frame \<Rightarrow> error + frame" where
  "mask_by_apply keeps_columns f df =
     (case df of
        NoColumns \<Rightarrow> Inl KeyMissing
      | Frame rs \<Rightarrow>
          if rs = [] then Inr (if keeps_columns then Frame [] else NoColumns)
          else (case row_mask f rs of Inl e \<Rightarrow> Inl e | Inr out \<Rightarrow> Inr (Frame out)))"

text \<open>\<open>df = df[df['minutes'] <= 60]\<close> and \<open>df = df[df['minutes'] > 120]\<close>: the comparison
  of a column is a boolean Series whatever its length; a missing value compares false,
  and a cell that is not a number raises \<open>TypeError\<close>.\<close>

definition minutes_pass :: "(real \<Rightarrow> bool) \<Rightarrow> recipe \<Rightarrow> bool" where
  "minutes_pass p r = (case minutes r of Num m \<Rightarrow> p m | _ \<Rightarrow> False)"

definition mask_by_minutes :: "(real \<Rightarrow> bool) \<Rightarrow> frame \<Rightarrow> error + frame" where
  "mask_by_minutes p df =
     (case df of
        NoColumns \<Rightarrow> Inl KeyMissing
      | Frame rs \<Rightarrow>
          if list_ex (\<lambda>r. minutes r = NotNum) rs then Inl TypeMismatch
          else Inr (Frame (filter (minutes_pass p) rs)))"

text \<open>\<open>any(t.lower() in tag_filters for t in x)\<close>\<close>

fun any_tag :: "pystr \<Rightarrow> ustring list \<Rightarrow> elem list \<Rightarrow> error + bool" where
  "any_tag L tag_filters [] = Inr False"
| "any_tag L tag_filters (Str t # x) =
     (if str_lower L t \<in> set tag_filters then Inr True else any_tag L tag_filters x)"
| "any_tag L tag_filters (NonStr t # x) = Inl AttributeMissing"

definition tag_test :: "pystr \<Rightarrow> ustring list \<Rightarrow> recipe \<Rightarrow> error + bool" where
  "tag_test L tag_filters r =
     (case recipe_tags r of NotList \<Rightarrow> Inr False | ListCell x \<Rightarrow> any_tag L tag_filters x)"

text \<open>\<open>any(cuisine in str(t).lower() for t in x for cuisine in user_cuisines)\<close>\<close>

definition cuisine_test :: "pystr \<Rightarrow> ustring set \<Rightarrow> recipe \<Rightarrow> error + bool" where
  "cuisine_test L user_cuisines r =
     (case recipe_tags r of
        NotList \<Rightarrow> Inr False
      | ListCell x \<Rightarrow>
          Inr (\<exists>t\<in>set x. \<exists>cuisine\<in>user_cuisines.
                 substr cuisine (str_lower L (str_of t))))"

text \<open>\<open>any(ing in str(i).lower() for i in x)\<close>\<close>

definition ingredient_test :: "pystr \<Rightarrow> ustring \<Rightarrow> recipe \<Rightarrow> error + bool" where
  "ingredient_test L ing r =
     (case recipe_ingredients r of
        NotList \<Rightarrow> Inr False
      | ListCell x \<Rightarrow> Inr (\<exists>i\<in>set x. substr ing (str_lower L (str_of i))))"

definition cuisine_keywords :: "ustring list" where
  "cuisine_keywords = map cp
     [''asian'', ''italian'', ''mexican'', ''indian'', ''american'', ''chinese'', ''japanese'',
      ''thai'', ''korean'', ''mediterranean'', ''north-american'', ''southwestern-united-states'',
      ''brazilian'', ''south-american'', ''european'', ''french'', ''greek'', ''spanish'',
      ''portuguese'', ''german'', ''hungarian'', ''austrian'', ''dutch'', ''australian'',
      ''canadian'', ''english'', ''middle-eastern'', ''turkish'', ''african'', ''moroccan'',
      ''russian'', ''colombian'', ''filipino'', ''scandinavian'', ''vietnamese'', ''lebanese'',
      ''swiss'', ''cajun'', ''creole'', ''irish'', ''polish'', ''swedish'', ''norwegian'',
      ''danish'', ''egyptian'', ''ethiopian'', ''nigerian'', ''belgian'', ''venezuelan'',
      ''quebec'', ''british-columbian'', ''nepalese'', ''puerto-rican'', ''costa-rican'',
      ''guatemalan'', ''honduran'', ''argentine'', ''chilean'', ''iranian-persian'',
      ''libyan'', ''somalian'', ''beijing'', ''mongolian'', ''cambodian'', ''sudanese'']"

text \<open>The two lists the loop over \<open>intents.items()\<close> collects; the dictionary holds
  \<open>dietary\<close>, \<open>cuisine\<close>, \<open>meal_type\<close> in this order.\<close>

definition tag_filters_of :: "pystr \<Rightarrow> intents \<Rightarrow> ustring list" where
  "tag_filters_of L i =
     map (str_lower L) (dietary i) @ map (str_lower L) (cuisine i)
     @ map (str_lower L) (meal_type i)"

definition ingredient_filters_of :: "pystr \<Rightarrow> intents \<Rightarrow> ustring set \<Rightarrow> ustring list" where
  "ingredient_filters_of L i user_words =
     filter (\<lambda>v. str_lower L v \<in> user_words) (ingredients i)"

text \<open>Lines 72 to 100 of \<open>filter.py\<close>: the tag filter, or else the cuisine keywords of the
  utterance.\<close>

definition tag_stage ::
  "pystr \<Rightarrow> bool \<Rightarrow> ustring list \<Rightarrow> ustring set \<Rightarrow> frame \<Rightarrow> error + frame" where
  "tag_stage L keeps_columns tag_filters user_words df =
     (if tag_filters \<noteq> [] then mask_by_apply keeps_columns (tag_test L tag_filters) df
      else if user_words \<noteq> {} then
        (let user_cuisines = user_words \<inter> set cuisine_keywords
         in if user_cuisines \<noteq> {}
            then mask_by_apply keeps_columns (cuisine_test L user_cuisines) df
            else Inr df)
      else Inr df)"

text \<open>The loop \<open>for ing in ingredient_filters\<close>\<close>

fun ingredient_stage :: "pystr \<Rightarrow> bool \<Rightarrow> ustring list \<Rightarrow> frame \<Rightarrow> error + frame" where
  "ingredient_stage L keeps_columns [] df = Inr df"
| "ingredient_stage L keeps_columns (ing # rest) df =
     (case mask_by_apply keeps_columns (ingredient_test L ing) df of
        Inl e \<Rightarrow> Inl e
      | Inr df' \<Rightarrow> ingredient_stage L keeps_columns rest df')"

text \<open>Lines 111 to 122\<close>

definition time_stage :: "ustring list \<Rightarrow> frame \<Rightarrow> error + frame" where
  "time_stage values df =
     (if values \<noteq> [] then
        (if cp ''quick'' \<in> set values then mask_by_minutes (\<lambda>m. m \<le> 60) df
         else if cp ''slow'' \<in> set values then mask_by_minutes (\<lambda>m. m > 120) df
         else Inr df)
      else Inr df)"

text \<open>\<open>filter_recipes\<close> up to line 108, on a corpus whose columns carry the names the
  function looks for; \<open>user_input or ""\<close> leaves a string as it is.\<close>

definition filter_before_time ::
  "pystr \<Rightarrow> bool \<Rightarrow> intents \<Rightarrow> ustring \<Rightarrow> recipe list \<Rightarrow> error + frame" where
  "filter_before_time L keeps_columns i user_input corpus =
     (let user_words = set (findall_w L (str_lower L user_input))
      in case tag_stage L keeps_columns (tag_filters_of L i) user_words (Frame corpus) of
           Inl e \<Rightarrow> Inl e
         | Inr df \<Rightarrow>
             ingredient_stage L keeps_columns (ingredient_filters_of L i user_words) df)"

definition filter_recipes ::
  "pystr \<Rightarrow> bool \<Rightarrow> intents \<Rightarrow> ustring \<Rightarrow> recipe list \<Rightarrow> error + frame" where
  "filter_recipes L keeps_columns i user_input corpus =
     (case filter_before_time L keeps_columns i user_input corpus of
        Inl e \<Rightarrow> Inl e
      | Inr df \<Rightarrow> time_stage (time_constraint i) df)"

section \<open>Invariants and a concrete world\<close>

text \<open>The predicates the proofs about the assignment loop use.\<close>

definition flag_ok :: "intents \<Rightarrow> bool" where
  "flag_ok i \<longleftrightarrow>
     (matched i \<longleftrightarrow>
        (dietary i \<noteq> [] \<or> cuisine i \<noteq> [] \<or> meal_type i \<noteq> [] \<or> ingredients i \<noteq> []
         \<or> time_constraint i \<noteq> [] \<or> special i \<noteq> None))"

definition all_labels :: "intents \<Rightarrow> ustring list" where
  "all_labels i = dietary i @ cuisine i @ meal_type i @ ingredients i"

definition disjoint_ok :: "assign_state \<Rightarrow> bool" where
  "disjoint_ok s \<longleftrightarrow> distinct (all_labels (fst s)) \<and> set (all_labels (fst s)) \<subseteq> snd s"

definition confirmed_all ::
  "(ustring \<Rightarrow> bool) \<Rightarrow> ustring list \<Rightarrow> assign_state \<Rightarrow> bool" where
  "confirmed_all conf cs s \<longleftrightarrow> (\<forall>l\<in>set cs. conf l \<longrightarrow> l \<in> snd s)"

text \<open>The world on which the definitions are evaluated. Its string library is Python's
  restricted to ASCII: the letters, the digits and the underscore for \<open>\w\<close>, the ten
  ASCII characters \<open>str.isspace\<close> accepts, \<open>A\<close>..\<open>Z\<close> lower-cased to \<open>a\<close>..\<open>z\<close>, a literal
  matching a character of the same lower case. Every string of the world is ASCII.\<close>

definition ascii_word :: "nat \<Rightarrow> bool" where
  "ascii_word c \<longleftrightarrow>
     (48 \<le> c \<and> c \<le> 57) \<or> (65 \<le> c \<and> c \<le> 90) \<or> c = 95 \<or> (97 \<le> c \<and> c \<le> 122)"

definition ascii_space :: "nat \<Rightarrow> bool" where
  "ascii_space c \<longleftrightarrow> (9 \<le> c \<and> c \<le> 13) \<or> (28 \<le> c \<and> c \<le> 32)"

definition ascii_lower_cp :: "nat \<Rightarrow> nat" where
  "ascii_lower_cp c = (if 65 \<le> c \<and> c \<le> 90 then c + 32 else c)"

definition ascii_lib :: pystr where
  "ascii_lib =
     \<lparr>word_char = ascii_word, space_char = ascii_space, str_lower = map ascii_lower_cp,
      same_ignoring_case = (\<lambda>a c. ascii_lower_cp a = ascii_lower_cp c)\<rparr>"

text \<open>A stable \<open>argsort\<close>, and a small provider and vocabulary: two-dimensional
  embeddings, every sentence but \<open>hello\<close> encoded as the first unit vector, the members
  of a set visited in the order of their first occurrence.\<close>

definition argsort_ref :: "real list \<Rightarrow> nat list" where
  "argsort_ref xs = map snd (sort_key fst (zip xs [0..<length xs]))"

definition first_seen :: "ustring list \<Rightarrow> ustring list" where
  "first_seen xs = rev (remdups (rev xs))"

definition example_provider :: provider where
  "example_provider =
     \<lparr>encode = (\<lambda>s. if s = cp ''hello'' then [0, 1] else [1, 0]),
      argsort = argsort_ref,
      stop_words = map cp [''a'', ''the'', ''me'', ''and''],
      iteration = first_seen\<rparr>"

definition example_embeddings :: "category \<Rightarrow> real list list" where
  "example_embeddings c =
     (case c of Dietary \<Rightarrow> [[1, 0]] | Cuisine \<Rightarrow> [[0, 1]] | MealType \<Rightarrow> [[1, 0]]
              | Ingredients \<Rightarrow> [[0, 1], [1, 0], [1, 0]])"

definition example_labels :: "category \<Rightarrow> ustring list" where
  "example_labels c = map cp
     (case c of Dietary \<Rightarrow> [''vegan''] | Cuisine \<Rightarrow> [''italian''] | MealType \<Rightarrow> [''main-dish'']
              | Ingredients \<Rightarrow> [''tofu'', ''chicken'', ''beef''])"

definition example_vocabulary :: vocabulary where
  "example_vocabulary =
     \<lparr>time_patterns = time_constraint_patterns,
      intent_embeddings = example_embeddings,
      special_embeddings = [[0, 1], [0, 1], [0, 1]],
      intent_labels = example_labels,
      special_labels = map cp [''greeting'', ''goodbye'', ''help'']\<rparr>"

definition example_utterance :: ustring where
  "example_utterance = cp ''Quick vegan chicken please''"

definition example_intents :: intents where
  "example_intents =
     \<lparr>dietary = [cp ''vegan''], cuisine = [], meal_type = [cp ''main-dish''],
      time_constraint = [cp ''quick''], ingredients = [cp ''chicken''], special = None,
      matched = True\<rparr>"

text \<open>The invariant of the data model on a recipe: \<open>tags\<close> and \<open>ingredients\<close> are lists
  of strings and \<open>minutes\<close> is a number.\<close>

definition strings_only :: "cell \<Rightarrow> bool" where
  "strings_only x =
     (case x of
        NotList \<Rightarrow> False
      | ListCell es \<Rightarrow> list_all (\<lambda>e. case e of Str s \<Rightarrow> True | NonStr s \<Rightarrow> False) es)"

definition well_formed :: "recipe \<Rightarrow> bool" where
  "well_formed r \<longleftrightarrow>
     strings_only (recipe_tags r) \<and> strings_only (recipe_ingredients r)
     \<and> (case minutes r of Num m \<Rightarrow> True | _ \<Rightarrow> False)"

text \<open>A small corpus.\<close>

definition strs :: "string list \<Rightarrow> cell" where
  "strs xs = ListCell (map (\<lambda>x. Str (cp x)) xs)"

definition tofu_salad :: recipe where
  "tofu_salad =
     \<lparr>name = cp ''tofu salad'', minutes = Num 20,
      recipe_tags = strs [''vegan'', ''salads''],
      recipe_ingredients = strs [''tofu'', ''lettuce'']\<rparr>"

definition roast_chicken :: recipe where
  "roast_chicken =
     \<lparr>name = cp ''roast chicken'', minutes = Num 90,
      recipe_tags = strs [''main-dish''],
      recipe_ingredients = strs [''chicken'', ''salt'']\<rparr>"

definition chicken_curry :: recipe where
  "chicken_curry =
     \<lparr>name = cp ''chicken curry'', minutes = Num 45,
      recipe_tags = strs [''Main-Dish'', ''indian''],
      recipe_ingredients = strs [''Chicken breast'', ''curry paste'']\<rparr>"

definition beef_stew :: recipe where
  "beef_stew =
     \<lparr>name = cp ''beef stew'', minutes = Num 200,
      recipe_tags = strs [''stews''],
      recipe_ingredients = strs [''beef'', ''olive oil'']\<rparr>"

definition example_corpus :: "recipe list" where
  "example_corpus = [tofu_salad, roast_chicken, chicken_curry, beef_stew]"

section \<open>Properties of cleaning and of the input check\<close>

lemma py_strip_empty_iff: "py_strip L s = [] \<longleftrightarrow> (\<forall>c\<in>set s. space_char L c)"
proof -
  have "(\<forall>x\<in>set (dropWhile (space_char L) s). space_char L x) \<longleftrightarrow> (\<forall>x\<in>set s. space_char L x)"
    by (induction s) auto
  then show ?thesis by (simp add: py_strip_def dropWhile_eq_Nil_conv)
qed

lemma tokens_chars:
  "t \<in> set (tokens P cur s) \<Longrightarrow> \<forall>c\<in>set cur. P c \<Longrightarrow> t \<noteq> [] \<and> (\<forall>c\<in>set t. P c)"
  by (induction P cur s rule: tokens.induct) (auto split: if_splits)

lemma findall_w_chars:
  "t \<in> set (findall_w L s) \<Longrightarrow> t \<noteq> [] \<and> (\<forall>c\<in>set t. word_char L c)"
  unfolding findall_w_def using tokens_chars [of t "word_char L" "[]" s] by simp

lemma join_space_first:
  "ws \<noteq> [] \<Longrightarrow> hd ws \<noteq> [] \<Longrightarrow> join_space ws \<noteq> [] \<and> hd (join_space ws) = hd (hd ws)"
  by (induction ws rule: join_space.induct) auto

lemma clean_blank_iff_empty:
  assumes "\<forall>c. word_char L c \<longrightarrow> \<not> space_char L c"
  shows "(\<forall>c\<in>set (clean_user_input L stop u). space_char L c)
           \<longleftrightarrow> clean_user_input L stop u = []"
proof
  assume blank: "\<forall>c\<in>set (clean_user_input L stop u). space_char L c"
  define ws where "ws = filter (\<lambda>w. w \<notin> set stop)
      (findall_w L (foldl (\<lambda>s phrase. remove_phrase L phrase None 0 s)
                         (str_lower L u) FILLER_PHRASES))"
  have cl: "clean_user_input L stop u = join_space ws"
    by (simp add: clean_user_input_def ws_def)
  show "clean_user_input L stop u = []"
  proof (cases ws)
    case Nil
    then show ?thesis by (simp add: cl)
  next
    case (Cons w rest)
    have "w \<in> set (findall_w L (foldl (\<lambda>s phrase. remove_phrase L phrase None 0 s)
                                    (str_lower L u) FILLER_PHRASES))"
    proof -
      from Cons have "w \<in> set ws" by simp
      then show ?thesis unfolding ws_def by simp
    qed
    then have w: "w \<noteq> [] \<and> (\<forall>c\<in>set w. word_char L c)" by (rule findall_w_chars)
    with Cons have j: "join_space ws \<noteq> [] \<and> hd (join_space ws) = hd w"
      using join_space_first [of ws] by simp
    from w have "word_char L (hd w)" by (cases w) auto
    moreover from j blank cl have "space_char L (hd w)"
      by (metis list.set_sel(1))
    ultimately show ?thesis using assms by blast
  qed
qed simp

lemma pick_not_invalid: "pick labels sims thr idx \<noteq> Inl InvalidInput"
  by (induction idx) (auto split: sum.splits)

lemma best_match_not_invalid: "best_match a u refs labels thr n \<noteq> Inl InvalidInput"
  by (simp add: best_match_def Let_def pick_not_invalid)

lemma match_categories_not_invalid:
  "\<forall>c. bm c \<noteq> Inl InvalidInput \<Longrightarrow> match_categories bm cs am \<noteq> Inl InvalidInput"
  by (induction cs arbitrary: am) (auto split: sum.splits)

lemma ascii_word_not_space: "\<forall>c. word_char ascii_lib c \<longrightarrow> \<not> space_char ascii_lib c"
  by (auto simp: ascii_lib_def ascii_word_def ascii_space_def)

text \<open>
  Claim C4. \<open>recognize_intent\<close> fails with the invalid-input error exactly when the cleaned
  utterance is empty, and the cleaned utterance is empty exactly when it consists of
  white space only: an utterance that cleaning reduces to nothing raises the error, and
  an utterance whose cleaned form is not empty does not raise it. The utterance is any
  list of code points; of Python's string library the proof uses one fact, that no code
  point is both a \<open>\w\<close> character and white space.
\<close>

theorem recognize_invalid_input_iff:
  assumes "\<forall>c. word_char L c \<longrightarrow> \<not> space_char L c"
  shows "(recognize_intent L P V u = Inl InvalidInput
            \<longleftrightarrow> clean_user_input L (stop_words P) u = [])
       \<and> (clean_user_input L (stop_words P) u = []
            \<longleftrightarrow> (\<forall>c\<in>set (clean_user_input L (stop_words P) u). space_char L c))"
proof -
  let ?cl = "clean_user_input L (stop_words P) u"
  note blank = clean_blank_iff_empty [OF assms, of "stop_words P" u]
  have e: "py_strip L ?cl = [] \<longleftrightarrow> ?cl = []"
    using py_strip_empty_iff [of L ?cl] blank by simp
  have "recognize_intent L P V u = Inl InvalidInput \<longleftrightarrow> py_strip L ?cl = []"
    unfolding recognize_intent_def Let_def
    using best_match_not_invalid match_categories_not_invalid
    by (auto split: sum.splits simp: best_match_not_invalid)
  with e show ?thesis using blank by simp
qed

theorem recognize_invalid_input_iff_witness:
  "recognize_intent ascii_lib example_provider example_vocabulary
       (cp ''Please give me a recipe!'') = Inl InvalidInput
   \<and> recognize_intent ascii_lib example_provider example_vocabulary
       (cp ''Please give me the chicken'') \<noteq> Inl InvalidInput"
proof -
  have a: "clean_user_input ascii_lib (stop_words example_provider)
             (cp ''Please give me a recipe!'') = []"
    by code_simp
  have b: "clean_user_input ascii_lib (stop_words example_provider)
             (cp ''Please give me the chicken'') \<noteq> []"
    by code_simp
  show ?thesis
    using a b
      recognize_invalid_input_iff [OF ascii_word_not_space, of example_provider
        example_vocabulary "cp ''Please give me a recipe!''"]
      recognize_invalid_input_iff [OF ascii_word_not_space, of example_provider
        example_vocabulary "cp ''Please give me the chicken''"]
    by blast
qed

section \<open>The example world evaluated\<close>

lemma example_clean:
  "clean_user_input ascii_lib (stop_words example_provider) example_utterance
     = cp ''quick vegan chicken''"
  by code_simp

lemma example_encode: "encode example_provider (cp ''quick vegan chicken'') = [1, 0]"
  by code_simp

lemma example_special:
  "best_match argsort_ref [1, 0] [[0, 1], [0, 1], [0, 1]] labels (1 / 2) (Suc 0) = Inr []"
  by (simp add: best_match_def dot_def l2_norm_def argsort_ref_def upt_conv_Cons)

lemma example_best_match:
  "best_match argsort_ref [1, 0] (example_embeddings Dietary) (example_labels Dietary) (7 / 10) 10
     = Inr [(cp ''vegan'', 1 / (1 + 1 / 10 ^ 8))]"
  "best_match argsort_ref [1, 0] (example_embeddings Cuisine) (example_labels Cuisine) (7 / 10) 10
     = Inr []"
  "best_match argsort_ref [1, 0] (example_embeddings MealType) (example_labels MealType) (7 / 10) 10
     = Inr [(cp ''main-dish'', 1 / (1 + 1 / 10 ^ 8))]"
  "best_match argsort_ref [1, 0] (example_embeddings Ingredients) (example_labels Ingredients)
     (7 / 10) 10
     = Inr [(cp ''beef'', 1 / (1 + 1 / 10 ^ 8)), (cp ''chicken'', 1 / (1 + 1 / 10 ^ 8))]"
  by (simp_all add: best_match_def dot_def l2_norm_def argsort_ref_def upt_conv_Cons
        example_embeddings_def example_labels_def)

lemma example_match_categories:
  "match_categories
     (\<lambda>c. best_match argsort_ref [1, 0] (example_embeddings c) (example_labels c) (7 / 10) 10)
     [Dietary, Cuisine, MealType, Ingredients] (\<lambda>c. [])
   = Inr ((\<lambda>c. [])(Dietary := [cp ''vegan''], Cuisine := [], MealType := [cp ''main-dish''],
                    Ingredients := [cp ''beef'', cp ''chicken'']))"
  by (simp add: example_best_match del: fun_upd_apply)

lemma example_time_loop:
  "time_loop ascii_lib example_utterance time_constraint_patterns empty_intents
     = empty_intents\<lparr>time_constraint := [cp ''quick''], matched := True\<rparr>"
  by code_simp

lemma example_assign_labels:
  "fst (assign_labels
     (lexical_match ascii_lib
        (set (py_split ascii_lib (py_strip ascii_lib
                (str_lower ascii_lib (cp ''quick vegan chicken'')))))
        (iteration example_provider
           (py_split ascii_lib (py_strip ascii_lib
              (str_lower ascii_lib (cp ''quick vegan chicken'')))))
        (str_lower ascii_lib (cp ''quick vegan chicken'')))
     ((\<lambda>c. [])(Dietary := [cp ''vegan''], Cuisine := [], MealType := [cp ''main-dish''],
                Ingredients := [cp ''beef'', cp ''chicken'']))
     (empty_intents\<lparr>time_constraint := [cp ''quick''], matched := True\<rparr>)) = example_intents"
  by code_simp

lemma example_strip: "py_strip ascii_lib (cp ''quick vegan chicken'') \<noteq> []"
  by code_simp

lemma example_recognize:
  "recognize_intent ascii_lib example_provider example_vocabulary example_utterance
     = Inr example_intents"
proof -
  have p: "argsort example_provider = argsort_ref"
    by (simp add: example_provider_def)
  show ?thesis
    unfolding recognize_intent_def Let_def
    by (simp add: p example_vocabulary_def example_clean example_encode example_strip
          example_special example_match_categories example_time_loop example_assign_labels
          del: fun_upd_apply match_categories.simps)
qed

lemma argsort_ref_range: "\<forall>i\<in>set (argsort_ref sims). i < length sims"
proof
  fix i assume "i \<in> set (argsort_ref sims)"
  then obtain x where "(x, i) \<in> set (zip sims [0..<length sims])"
    by (auto simp: argsort_ref_def)
  then have "i \<in> set [0..<length sims]" by (rule set_zip_rightD)
  then show "i < length sims" by simp
qed

section \<open>The placeholder table\<close>

lemma dot_zero_left: "dot (replicate n 0) u = 0"
proof -
  have "sum_list (map2 (*) (replicate n (0::real)) u) = 0"
    by (induction n arbitrary: u) (auto simp: zip_Cons1 split: list.splits)
  then show ?thesis by (simp add: dot_def)
qed

lemma pick_below_threshold:
  "\<forall>i\<in>set idx. i < length sims \<and> \<not> sims ! i > thr \<Longrightarrow> pick labels sims thr idx = Inr []"
  by (induction idx) auto

text \<open>
  Claim C7. For a category without labels, whose table is the single zero vector,
  \<open>best_match\<close> returns the empty candidate list and raises nothing, for every utterance
  embedding of the model's width, every threshold that is not negative and every
  \<open>argsort\<close> that returns positions of its argument.
\<close>

theorem placeholder_no_candidates:
  assumes "items c = []"
    and "length user_emb = 384"
    and "0 \<le> threshold"
    and "\<forall>sims. \<forall>i\<in>set (argsort P sims). i < length sims"
  shows "best_match (argsort P) user_emb
           (intent_embeddings (compile_model_and_embeddings P patterns items) c)
           (intent_labels (compile_model_and_embeddings P patterns items) c) threshold topn = Inr []"
proof -
  let ?sims = "[dot (replicate 384 0) user_emb / (l2_norm (replicate 384 0) * l2_norm user_emb + 1 / 10 ^ 8)]"
  have s: "?sims = [0]" by (simp add: dot_zero_left)
  have "\<forall>i\<in>set (take topn (rev (argsort P ?sims))). i < length ?sims \<and> \<not> ?sims ! i > threshold"
  proof
    fix i assume "i \<in> set (take topn (rev (argsort P ?sims)))"
    then have "i \<in> set (argsort P ?sims)" by (auto dest: in_set_takeD)
    with assms(4) have "i < length ?sims" by blast
    then have "i = 0" by simp
    with assms(3) show "i < length ?sims \<and> \<not> ?sims ! i > threshold" by (simp add: dot_zero_left)
  qed
  then have "pick [] ?sims threshold (take topn (rev (argsort P ?sims))) = Inr []"
    by (rule pick_below_threshold)
  with assms(1,2) show ?thesis
    by (simp add: best_match_def compile_model_and_embeddings_def Let_def)
qed

theorem placeholder_no_candidates_witness:
  "best_match (argsort example_provider) (replicate 384 1)
     (intent_embeddings
        (compile_model_and_embeddings example_provider time_constraint_patterns (\<lambda>c. [])) Cuisine)
     (intent_labels
        (compile_model_and_embeddings example_provider time_constraint_patterns (\<lambda>c. [])) Cuisine)
     (7 / 10) 10 = Inr []"
proof -
  have r: "\<forall>sims. \<forall>i\<in>set (argsort example_provider sims). i < length sims"
    using argsort_ref_range by (simp add: example_provider_def)
  show ?thesis
    using placeholder_no_candidates [of "\<lambda>c. []" Cuisine "replicate 384 1" "7 / 10"
        example_provider time_constraint_patterns 10] r
    by simp
qed

section \<open>The matched flag\<close>

lemma time_loop_flag: "flag_ok i \<Longrightarrow> flag_ok (time_loop L u ps i)"
  by (induction L u ps i rule: time_loop.induct) (auto simp: flag_ok_def)

lemma assign_flag: "flag_ok (fst (assign c l s))"
  by (cases c) (auto simp: assign_def flag_ok_def)

lemma confirm_label_flag: "flag_ok (fst s) \<Longrightarrow> flag_ok (fst (confirm_label conf c s l))"
  by (simp add: confirm_label_def assign_flag)

lemma fill_label_flag: "flag_ok (fst s) \<Longrightarrow> flag_ok (fst (fill_label c s l))"
  by (simp add: fill_label_def assign_flag)

lemma foldl_confirm_flag: "flag_ok (fst s) \<Longrightarrow> flag_ok (fst (foldl (confirm_label conf c) s ls))"
  by (induction ls arbitrary: s) (auto simp: confirm_label_flag)

lemma foldl_fill_flag: "flag_ok (fst s) \<Longrightarrow> flag_ok (fst (foldl (fill_label c) s ls))"
  by (induction ls arbitrary: s) (auto simp: fill_label_flag)

lemma category_step_flag: "flag_ok (fst s) \<Longrightarrow> flag_ok (fst (category_step conf am s c))"
  by (simp add: category_step_def Let_def foldl_confirm_flag foldl_fill_flag)

lemma assign_labels_flag: "flag_ok i \<Longrightarrow> flag_ok (fst (assign_labels conf am i))"
  by (simp add: assign_labels_def category_step_flag)

text \<open>
  Claim C6. On every utterance on which \<open>recognize_intent\<close> succeeds, the \<open>matched\<close> flag
  of the record is true exactly when a label was placed in \<open>dietary\<close>, \<open>cuisine\<close>,
  \<open>meal_type\<close> or \<open>ingredients\<close>, or \<open>time_constraint\<close> is not empty, or \<open>special\<close> is set.
\<close>

theorem recognize_matched_iff:
  assumes "recognize_intent L P V u = Inr r"
  shows "matched r \<longleftrightarrow> (dietary r \<noteq> [] \<or> cuisine r \<noteq> [] \<or> meal_type r \<noteq> [] \<or> ingredients r \<noteq> []
      \<or> time_constraint r \<noteq> [] \<or> special r \<noteq> None)"
proof -
  have e: "flag_ok empty_intents" by (simp add: flag_ok_def empty_intents_def)
  have e': "flag_ok (empty_intents\<lparr>special := Some x, matched := True\<rparr>)" for x
    by (simp add: flag_ok_def empty_intents_def)
  from assms have "flag_ok r"
    unfolding recognize_intent_def Let_def
    by (auto split: if_splits sum.splits intro!: assign_labels_flag time_loop_flag e e')
  then show ?thesis by (simp add: flag_ok_def)
qed

theorem recognize_matched_iff_witness:
  "recognize_intent ascii_lib example_provider example_vocabulary example_utterance
     = Inr example_intents
   \<and> (matched example_intents \<longleftrightarrow>
        (dietary example_intents \<noteq> [] \<or> cuisine example_intents \<noteq> []
         \<or> meal_type example_intents \<noteq> [] \<or> ingredients example_intents \<noteq> []
         \<or> time_constraint example_intents \<noteq> [] \<or> special example_intents \<noteq> None))"
  using recognize_matched_iff [OF example_recognize] example_recognize by blast

section \<open>Disjointness of the label fields\<close>

lemma assign_disjoint: "disjoint_ok s \<Longrightarrow> l \<notin> snd s \<Longrightarrow> disjoint_ok (assign c l s)"
  by (cases c) (auto simp: assign_def disjoint_ok_def all_labels_def)

lemma foldl_confirm_disjoint: "disjoint_ok s \<Longrightarrow> disjoint_ok (foldl (confirm_label conf c) s ls)"
  by (induction ls arbitrary: s) (auto simp: confirm_label_def assign_disjoint)

lemma foldl_fill_disjoint: "disjoint_ok s \<Longrightarrow> disjoint_ok (foldl (fill_label c) s ls)"
  by (induction ls arbitrary: s) (auto simp: fill_label_def assign_disjoint)

lemma category_step_disjoint: "disjoint_ok s \<Longrightarrow> disjoint_ok (category_step conf am s c)"
  by (simp add: category_step_def Let_def foldl_confirm_disjoint foldl_fill_disjoint)

lemma all_labels_time_loop: "all_labels (time_loop L u ps i) = all_labels i"
  by (induction L u ps i rule: time_loop.induct) (auto simp: all_labels_def)

lemma assign_labels_disjoint:
  assumes "all_labels i = []"
  shows "disjoint_ok (assign_labels conf am i)"
proof -
  from assms have "disjoint_ok (i, {})" by (simp add: disjoint_ok_def)
  then show ?thesis
    unfolding assign_labels_def foldl.simps
    by (intro category_step_disjoint)
qed

text \<open>
  Claim C2. On every utterance on which \<open>recognize_intent\<close> succeeds, no label occurs in
  two of the fields \<open>dietary\<close>, \<open>cuisine\<close>, \<open>meal_type\<close> and \<open>ingredients\<close>, and no label
  occurs twice within one of them: the concatenation of the four fields has no repeated
  element.
\<close>

theorem recognize_labels_disjoint:
  assumes "recognize_intent L P V u = Inr r"
  shows "distinct (dietary r @ cuisine r @ meal_type r @ ingredients r)"
proof -
  have e: "all_labels empty_intents = []" by (simp add: all_labels_def empty_intents_def)
  have e': "all_labels (empty_intents\<lparr>special := Some x, matched := True\<rparr>) = []" for x
    by (simp add: all_labels_def empty_intents_def)
  from assms have "\<exists>conf am i. all_labels i = [] \<and> r = fst (assign_labels conf am i)"
    unfolding recognize_intent_def Let_def
    by (auto split: if_splits sum.splits simp: all_labels_time_loop e e' intro!: exI)
  then obtain conf am i where i: "all_labels i = []" and r: "r = fst (assign_labels conf am i)"
    by blast
  from i have "disjoint_ok (assign_labels conf am i)" by (rule assign_labels_disjoint)
  with r show ?thesis by (simp add: disjoint_ok_def all_labels_def)
qed

theorem recognize_labels_disjoint_witness:
  "recognize_intent ascii_lib example_provider example_vocabulary example_utterance
     = Inr example_intents
   \<and> distinct (dietary example_intents @ cuisine example_intents @ meal_type example_intents
              @ ingredients example_intents)"
  using recognize_labels_disjoint [OF example_recognize] example_recognize by blast

section \<open>Determinism\<close>




section \<open>The two passes of the assignment\<close>

lemma snd_assign: "snd (assign c l s) = insert l (snd s)"
  by (simp add: assign_def)

lemma foldl_confirm_mono: "snd s \<subseteq> snd (foldl (confirm_label conf c) s ls)"
proof (induction ls arbitrary: s)
  case (Cons l ls)
  have "snd s \<subseteq> snd (confirm_label conf c s l)"
    by (auto simp: confirm_label_def snd_assign)
  also have "\<dots> \<subseteq> snd (foldl (confirm_label conf c) (confirm_label conf c s l) ls)"
    by (rule Cons.IH)
  finally show ?case by simp
qed simp

lemma foldl_fill_mono: "snd s \<subseteq> snd (foldl (fill_label c) s ls)"
proof (induction ls arbitrary: s)
  case (Cons l ls)
  have "snd s \<subseteq> snd (fill_label c s l)"
    by (auto simp: fill_label_def snd_assign)
  also have "\<dots> \<subseteq> snd (foldl (fill_label c) (fill_label c s l) ls)"
    by (rule Cons.IH)
  finally show ?case by simp
qed simp

lemma confirm_pass_mono: "snd s \<subseteq> snd (confirm_pass conf am s c)"
  by (simp add: confirm_pass_def foldl_confirm_mono)

lemma fill_pass_mono: "snd s \<subseteq> snd (fill_pass am s c)"
  by (simp add: fill_pass_def foldl_fill_mono)

lemma confirmed_all_mono: "confirmed_all conf cs s \<Longrightarrow> snd s \<subseteq> snd s' \<Longrightarrow> confirmed_all conf cs s'"
  by (auto simp: confirmed_all_def)

lemma foldl_confirm_covers:
  "\<forall>l\<in>set ls. conf l \<longrightarrow> l \<in> snd (foldl (confirm_label conf c) s ls)"
proof (induction ls arbitrary: s)
  case (Cons l ls)
  have "conf l \<longrightarrow> l \<in> snd (confirm_label conf c s l)"
    by (simp add: confirm_label_def snd_assign)
  then have "conf l \<longrightarrow> l \<in> snd (foldl (confirm_label conf c) (confirm_label conf c s l) ls)"
    using foldl_confirm_mono [of "confirm_label conf c s l" conf c ls] by blast
  with Cons.IH [of "confirm_label conf c s l"] show ?case by simp
qed simp

lemma confirm_pass_covers: "confirmed_all conf (am c) (confirm_pass conf am s c)"
  by (simp add: confirmed_all_def confirm_pass_def foldl_confirm_covers)

lemma get_field_assign_other: "a \<noteq> b \<Longrightarrow> get_field a (fst (assign b l s)) = get_field a (fst s)"
  by (cases a; cases b) (simp_all add: assign_def)

lemma get_field_foldl_confirm_other:
  "a \<noteq> b \<Longrightarrow> get_field a (fst (foldl (confirm_label conf b) s ls)) = get_field a (fst s)"
  by (induction ls arbitrary: s) (simp_all add: confirm_label_def get_field_assign_other)

lemma assign_commute:
  "a \<noteq> b \<Longrightarrow> x \<noteq> y \<Longrightarrow> assign b y (assign a x s) = assign a x (assign b y s)"
  by (cases a; cases b) (auto simp: assign_def)

lemma label_commute:
  assumes "a \<noteq> b" and "conf x \<longrightarrow> x \<in> snd s"
  shows "confirm_label conf b (fill_label a s x) y = fill_label a (confirm_label conf b s y) x"
proof (cases "x = y")
  case True
  with assms(2) show ?thesis
    by (auto simp: confirm_label_def fill_label_def snd_assign)
next
  case False
  with assms(1) show ?thesis
    by (auto simp: confirm_label_def fill_label_def snd_assign assign_commute)
qed

lemma fill_label_foldl_confirm_commute:
  assumes "a \<noteq> b"
  shows "conf x \<longrightarrow> x \<in> snd s \<Longrightarrow>
    foldl (confirm_label conf b) (fill_label a s x) ys = fill_label a (foldl (confirm_label conf b) s ys) x"
proof (induction ys arbitrary: s)
  case (Cons y ys)
  have m: "conf x \<longrightarrow> x \<in> snd (confirm_label conf b s y)"
    using Cons.prems by (auto simp: confirm_label_def snd_assign)
  have "foldl (confirm_label conf b) (fill_label a s x) (y # ys)
      = foldl (confirm_label conf b) (fill_label a (confirm_label conf b s y) x) ys"
    using label_commute [of a b conf x s y] assms Cons.prems by simp
  also have "\<dots> = fill_label a (foldl (confirm_label conf b) (confirm_label conf b s y) ys) x"
    using Cons.IH [of "confirm_label conf b s y"] m by blast
  finally show ?case by simp
qed simp

lemma foldl_fill_foldl_confirm_commute:
  assumes "a \<noteq> b"
  shows "\<forall>x\<in>set xs. conf x \<longrightarrow> x \<in> snd s \<Longrightarrow>
    foldl (confirm_label conf b) (foldl (fill_label a) s xs) ys
      = foldl (fill_label a) (foldl (confirm_label conf b) s ys) xs"
proof (induction xs arbitrary: s)
  case (Cons x xs)
  have x: "conf x \<longrightarrow> x \<in> snd s" using Cons.prems by simp
  have m: "\<forall>z\<in>set xs. conf z \<longrightarrow> z \<in> snd (fill_label a s x)"
    using Cons.prems by (auto simp: fill_label_def snd_assign)
  have "foldl (confirm_label conf b) (foldl (fill_label a) s (x # xs)) ys
      = foldl (fill_label a) (foldl (confirm_label conf b) (fill_label a s x) ys) xs"
    using Cons.IH [of "fill_label a s x"] m by simp
  also have "\<dots> = foldl (fill_label a) (fill_label a (foldl (confirm_label conf b) s ys) x) xs"
    using fill_label_foldl_confirm_commute [of a b conf x s ys] assms x by simp
  finally show ?case by simp
qed simp

lemma pass_commute:
  assumes "a \<noteq> b" and "confirmed_all conf (am a) s"
  shows "confirm_pass conf am (fill_pass am s a) b = fill_pass am (confirm_pass conf am s b) a"
proof -
  have f: "get_field a (fst (confirm_pass conf am s b)) = get_field a (fst s)"
    using assms(1) by (simp add: confirm_pass_def get_field_foldl_confirm_other)
  show ?thesis
  proof (cases "get_field a (fst s) = [] \<and> am a \<noteq> []")
    case True
    then show ?thesis
      using f assms foldl_fill_foldl_confirm_commute [of a b "am a" conf s "am b"]
      by (simp add: fill_pass_def confirm_pass_def confirmed_all_def)
  next
    case False
    then show ?thesis using f by (auto simp: fill_pass_def)
  qed
qed

lemma category_step_passes:
  "category_step conf am s c = fill_pass am (confirm_pass conf am s c) c"
  by (simp add: category_step_def fill_pass_def confirm_pass_def Let_def)

lemma assign_labels_two_passes: "assign_labels conf am i = spec_assign_labels conf am i"
proof -
  let ?c = "confirm_pass conf am" and ?f = "fill_pass am"
  define s1 where "s1 = ?c (i, {}) Cuisine"
  define s2 where "s2 = ?c s1 Ingredients"
  define s3 where "s3 = ?c s2 MealType"
  have k1: "confirmed_all conf (am Cuisine) s1"
    unfolding s1_def by (rule confirm_pass_covers)
  have k2: "confirmed_all conf (am Ingredients) s2"
    unfolding s2_def by (rule confirm_pass_covers)
  have k3: "confirmed_all conf (am MealType) s3"
    unfolding s3_def by (rule confirm_pass_covers)
  have k1_2: "confirmed_all conf (am Cuisine) s2"
    using k1 confirm_pass_mono unfolding s2_def by (rule confirmed_all_mono)
  have k1_3: "confirmed_all conf (am Cuisine) s3"
    using k1_2 confirm_pass_mono unfolding s3_def by (rule confirmed_all_mono)
  have k2_f1: "confirmed_all conf (am Ingredients) (?f s2 Cuisine)"
    using k2 fill_pass_mono by (rule confirmed_all_mono)
  have k2_3: "confirmed_all conf (am Ingredients) s3"
    using k2 confirm_pass_mono unfolding s3_def by (rule confirmed_all_mono)
  have k2_f1': "confirmed_all conf (am Ingredients) (?f s3 Cuisine)"
    using k2_3 fill_pass_mono by (rule confirmed_all_mono)
  have k3_f: "confirmed_all conf (am MealType) (?f (?f s3 Cuisine) Ingredients)"
    using k3 fill_pass_mono [of s3 am Cuisine] fill_pass_mono [of "?f s3 Cuisine" am Ingredients]
    by (auto intro: confirmed_all_mono)
  have a: "?c (?f s1 Cuisine) Ingredients = ?f s2 Cuisine"
    unfolding s2_def using pass_commute [of Cuisine Ingredients conf am s1] k1 by simp
  have b: "?c (?f (?f s2 Cuisine) Ingredients) MealType = ?f (?f s3 Cuisine) Ingredients"
  proof -
    have "?c (?f (?f s2 Cuisine) Ingredients) MealType = ?f (?c (?f s2 Cuisine) MealType) Ingredients"
      using pass_commute [of Ingredients MealType conf am "?f s2 Cuisine"] k2_f1 by simp
    also have "?c (?f s2 Cuisine) MealType = ?f s3 Cuisine"
      unfolding s3_def using pass_commute [of Cuisine MealType conf am s2] k1_2 by simp
    finally show ?thesis .
  qed
  have c: "?c (?f (?f (?f s3 Cuisine) Ingredients) MealType) Dietary
         = ?f (?f (?f (?c s3 Dietary) Cuisine) Ingredients) MealType"
  proof -
    have "?c (?f (?f (?f s3 Cuisine) Ingredients) MealType) Dietary
        = ?f (?c (?f (?f s3 Cuisine) Ingredients) Dietary) MealType"
      using pass_commute [of MealType Dietary conf am "?f (?f s3 Cuisine) Ingredients"] k3_f by simp
    also have "?c (?f (?f s3 Cuisine) Ingredients) Dietary = ?f (?c (?f s3 Cuisine) Dietary) Ingredients"
      using pass_commute [of Ingredients Dietary conf am "?f s3 Cuisine"] k2_f1' by simp
    also have "?c (?f s3 Cuisine) Dietary = ?f (?c s3 Dietary) Cuisine"
      using pass_commute [of Cuisine Dietary conf am s3] k1_3 by simp
    finally show ?thesis .
  qed
  have "assign_labels conf am i
      = ?f (?c (?f (?c (?f (?c (?f s1 Cuisine) Ingredients) Ingredients) MealType) MealType) Dietary) Dietary"
    by (simp add: assign_labels_def category_step_passes s1_def)
  also have "\<dots> = ?f (?f (?f (?f (?c s3 Dietary) Cuisine) Ingredients) MealType) Dietary"
    by (simp only: a b c)
  also have "\<dots> = spec_assign_labels conf am i"
    by (simp add: spec_assign_labels_def s1_def s2_def s3_def)
  finally show ?thesis .
qed

text \<open>
  Claim C1. The fallback-fill behaves as a pass that runs after the confirmation of all
  four categories: on every utterance, \<open>recognize_intent\<close>, whose loop fills a category
  in the round that confirms it, returns what the two-pass procedure of the
  specification returns, in which a field is filled only if it is still empty once the
  candidates of all four categories have gone through confirmation.
\<close>

theorem recognize_intent_two_passes: "recognize_intent L P V u = spec_recognize L P V u"
  unfolding recognize_intent_def spec_recognize_def assign_labels_two_passes ..


theorem recognize_intent_two_passes_witness:
  "spec_recognize ascii_lib example_provider example_vocabulary example_utterance
     = Inr example_intents"
  using recognize_intent_two_passes [of ascii_lib example_provider example_vocabulary
      example_utterance] example_recognize
  by simp

section \<open>The filter returns a subsequence of the corpus\<close>

lemma example_filter:
  "filter_recipes ascii_lib k example_intents example_utterance example_corpus
     = Inr (Frame [chicken_curry])"
proof -
  have "filter_recipes ascii_lib True example_intents example_utterance example_corpus
          = Inr (Frame [chicken_curry])"
    by code_simp
  moreover
  have "filter_recipes ascii_lib False example_intents example_utterance example_corpus
          = Inr (Frame [chicken_curry])"
    by code_simp
  ultimately show ?thesis by (cases k) simp_all
qed

lemma row_mask_subseq: "row_mask f rs = Inr out \<Longrightarrow> subseq out rs"
  by (induction rs arbitrary: out) (auto split: sum.splits if_splits)

lemma mask_by_apply_subseq:
  "mask_by_apply k f df = Inr df' \<Longrightarrow> subseq (rows_of df') (rows_of df)"
  by (auto simp: mask_by_apply_def row_mask_subseq split: frame.splits if_splits sum.splits)

lemma mask_by_minutes_rows:
  "mask_by_minutes p df = Inr df' \<Longrightarrow> rows_of df' = filter (minutes_pass p) (rows_of df)"
  by (auto simp: mask_by_minutes_def split: frame.splits if_splits)

lemma tag_stage_subseq:
  "tag_stage L k tf uw df = Inr df' \<Longrightarrow> subseq (rows_of df') (rows_of df)"
  by (auto simp: tag_stage_def Let_def mask_by_apply_subseq split: if_splits)

lemma ingredient_stage_subseq:
  "ingredient_stage L k ings df = Inr df' \<Longrightarrow> subseq (rows_of df') (rows_of df)"
proof (induction ings arbitrary: df)
  case (Cons ing rest)
  then obtain d where d: "mask_by_apply k (ingredient_test L ing) df = Inr d"
    and r: "ingredient_stage L k rest d = Inr df'"
    by (auto split: sum.splits)
  from r have "subseq (rows_of df') (rows_of d)" by (rule Cons.IH)
  moreover from d have "subseq (rows_of d) (rows_of df)" by (rule mask_by_apply_subseq)
  ultimately show ?case by (rule subseq_order.trans)
qed simp

lemma time_stage_rows:
  assumes "time_stage values df = Inr df'"
  shows "rows_of df' =
     (if cp ''quick'' \<in> set values then filter (minutes_pass (\<lambda>m. m \<le> 60)) (rows_of df)
      else if cp ''slow'' \<in> set values then filter (minutes_pass (\<lambda>m. m > 120)) (rows_of df)
      else rows_of df)"
  using assms by (auto simp: time_stage_def mask_by_minutes_rows split: if_splits)

lemma filter_before_time_subseq:
  "filter_before_time L k i u corpus = Inr df \<Longrightarrow> subseq (rows_of df) corpus"
proof -
  let ?uw = "set (findall_w L (str_lower L u))"
  assume a: "filter_before_time L k i u corpus = Inr df"
  then obtain d where d: "tag_stage L k (tag_filters_of L i) ?uw (Frame corpus) = Inr d"
    and r: "ingredient_stage L k (ingredient_filters_of L i ?uw) d = Inr df"
    by (auto simp: filter_before_time_def Let_def split: sum.splits)
  from r have "subseq (rows_of df) (rows_of d)" by (rule ingredient_stage_subseq)
  moreover from d have "subseq (rows_of d) (rows_of (Frame corpus))" by (rule tag_stage_subseq)
  ultimately show ?thesis using subseq_order.trans by fastforce
qed

text \<open>
  Claim C3. Whatever the intent record, the utterance and the corpus, the rows
  \<open>filter_recipes\<close> returns are a subsequence of the corpus: every returned recipe is a
  recipe of the corpus, none is repeated beyond its occurrences there, and the returned
  recipes stand in the order they have in the corpus.
\<close>

theorem filter_recipes_subseq:
  assumes "filter_recipes L k i u corpus = Inr df"
  shows "subseq (rows_of df) corpus"
proof -
  from assms obtain d where d: "filter_before_time L k i u corpus = Inr d"
    and t: "time_stage (time_constraint i) d = Inr df"
    by (auto simp: filter_recipes_def split: sum.splits)
  from t have "subseq (rows_of df) (rows_of d)"
    by (simp add: time_stage_rows)
  moreover from d have "subseq (rows_of d) corpus" by (rule filter_before_time_subseq)
  ultimately show ?thesis by (rule subseq_order.trans)
qed

theorem filter_recipes_subseq_witness:
  "filter_recipes ascii_lib True example_intents example_utterance example_corpus
     = Inr (Frame [chicken_curry])
   \<and> subseq [chicken_curry] example_corpus"
  using filter_recipes_subseq [OF example_filter [of True]] example_filter [of True]
  by simp

section \<open>The time constraint\<close>

text \<open>
  Claim C5. In the result of \<open>filter_recipes\<close>: if \<open>time_constraint\<close> contains \<open>quick\<close>,
  every recipe has at most 60 minutes; otherwise, if it contains \<open>slow\<close>, every recipe
  has more than 120 minutes. The result is what the stages before the time stage
  return, restricted to the recipes within the bound that applies (\<open>quick\<close> first, then
  \<open>slow\<close>, else none), and it is exactly what they return when \<open>time_constraint\<close> is empty.
\<close>

theorem filter_recipes_time_constraint:
  assumes "filter_recipes L k i u corpus = Inr df"
  shows "(cp ''quick'' \<in> set (time_constraint i) \<longrightarrow>
           (\<forall>r\<in>set (rows_of df). \<exists>m. minutes r = Num m \<and> m \<le> 60))
       \<and> (cp ''quick'' \<notin> set (time_constraint i) \<and> cp ''slow'' \<in> set (time_constraint i) \<longrightarrow>
           (\<forall>r\<in>set (rows_of df). \<exists>m. minutes r = Num m \<and> m > 120))
       \<and> (\<exists>df0. filter_before_time L k i u corpus = Inr df0
            \<and> rows_of df =
                (if cp ''quick'' \<in> set (time_constraint i)
                 then filter (minutes_pass (\<lambda>m. m \<le> 60)) (rows_of df0)
                 else if cp ''slow'' \<in> set (time_constraint i)
                 then filter (minutes_pass (\<lambda>m. m > 120)) (rows_of df0)
                 else rows_of df0)
            \<and> (time_constraint i = [] \<longrightarrow> df = df0))"
proof -
  from assms obtain d where d: "filter_before_time L k i u corpus = Inr d"
    and t: "time_stage (time_constraint i) d = Inr df"
    by (auto simp: filter_recipes_def split: sum.splits)
  have p: "minutes_pass p r \<Longrightarrow> \<exists>m. minutes r = Num m \<and> p m" for p r
    by (auto simp: minutes_pass_def split: number.splits)
  note rows = time_stage_rows [OF t]
  have e: "time_constraint i = [] \<longrightarrow> df = d"
    using t by (auto simp: time_stage_def)
  show ?thesis
    using d rows e p by auto
qed

theorem filter_recipes_time_constraint_witness:
  "cp ''quick'' \<in> set (time_constraint example_intents)
   \<and> filter_recipes ascii_lib True example_intents example_utterance example_corpus
       = Inr (Frame [chicken_curry])
   \<and> (\<exists>m. minutes chicken_curry = Num m \<and> m \<le> 60)"
  using filter_recipes_time_constraint [OF example_filter [of True]] example_filter [of True]
  by (simp add: example_intents_def)

section \<open>Ingredient labels with a non-word character\<close>

lemma ascii_lower_keeps_nonword:
  "\<forall>s. (\<exists>c\<in>set s. \<not> word_char ascii_lib c)
         \<longrightarrow> (\<exists>c\<in>set (str_lower ascii_lib s). \<not> word_char ascii_lib c)"
proof (intro allI impI)
  fix s assume "\<exists>c\<in>set s. \<not> word_char ascii_lib c"
  then obtain c where c: "c \<in> set s" "\<not> ascii_word c"
    by (auto simp: ascii_lib_def)
  then have "\<not> ascii_word (ascii_lower_cp c)"
    by (auto simp: ascii_word_def ascii_lower_cp_def)
  with c(1) show "\<exists>c\<in>set (str_lower ascii_lib s). \<not> word_char ascii_lib c"
    by (auto simp: ascii_lib_def)
qed

text \<open>
  Claim C10. An ingredient label that contains a character outside \<open>\w\<close> never enters
  the ingredient filters, so \<open>filter_recipes\<close> returns what it returns without that
  label, for every intent record, utterance and corpus; and every label that does enter
  the ingredient filters equals, lower-cased, a token of the utterance. Labels and
  utterances are any lists of code points; of Python's string library the proof uses one
  fact, that the lower case of a string with a character outside \<open>\w\<close> has a character
  outside \<open>\w\<close>.
\<close>

theorem nonword_ingredient_never_filters:
  assumes "\<forall>s. (\<exists>c\<in>set s. \<not> word_char L c) \<longrightarrow> (\<exists>c\<in>set (str_lower L s). \<not> word_char L c)"
    and "\<exists>c\<in>set v. \<not> word_char L c"
  shows "v \<notin> set (ingredient_filters_of L i (set (findall_w L (str_lower L u))))
       \<and> filter_recipes L k i u corpus
           = filter_recipes L k (i\<lparr>ingredients := removeAll v (ingredients i)\<rparr>) u corpus
       \<and> (\<forall>w\<in>set (ingredient_filters_of L i (set (findall_w L (str_lower L u)))).
            str_lower L w \<in> set (findall_w L (str_lower L u)))"
proof -
  let ?uw = "set (findall_w L (str_lower L u))"
  from assms have "\<exists>c\<in>set (str_lower L v). \<not> word_char L c" by blast
  then have n: "str_lower L v \<notin> ?uw"
    using findall_w_chars [of "str_lower L v" L "str_lower L u"] by blast
  then have a: "v \<notin> set (ingredient_filters_of L i ?uw)"
    by (simp add: ingredient_filters_of_def)
  have "filter (\<lambda>x. str_lower L x \<in> ?uw) (removeAll v (ingredients i))
      = filter (\<lambda>x. str_lower L x \<in> ?uw) (ingredients i)"
    using n by (induction "ingredients i") (auto simp: removeAll_filter_not_eq intro: filter_cong)
  then have b: "ingredient_filters_of L (i\<lparr>ingredients := removeAll v (ingredients i)\<rparr>) ?uw
      = ingredient_filters_of L i ?uw"
    by (simp add: ingredient_filters_of_def)
  have "filter_recipes L k i u corpus
          = filter_recipes L k (i\<lparr>ingredients := removeAll v (ingredients i)\<rparr>) u corpus"
    by (simp add: filter_recipes_def filter_before_time_def Let_def b tag_filters_of_def
          cong: sum.case_cong)
  with a show ?thesis by (simp add: ingredient_filters_of_def)
qed

theorem nonword_ingredient_never_filters_witness:
  "cp ''olive oil'' \<notin> set (ingredient_filters_of ascii_lib
       (example_intents\<lparr>ingredients := [cp ''olive oil'', cp ''chicken'']\<rparr>)
       (set (findall_w ascii_lib (str_lower ascii_lib (cp ''chicken with olive oil'')))))
   \<and> filter_recipes ascii_lib True
        (example_intents\<lparr>ingredients := [cp ''olive oil'', cp ''chicken'']\<rparr>)
        (cp ''chicken with olive oil'') example_corpus
     = filter_recipes ascii_lib True
        ((example_intents\<lparr>ingredients := [cp ''olive oil'', cp ''chicken'']\<rparr>)
           \<lparr>ingredients := removeAll (cp ''olive oil'')
              (ingredients (example_intents\<lparr>ingredients := [cp ''olive oil'', cp ''chicken'']\<rparr>))\<rparr>)
        (cp ''chicken with olive oil'') example_corpus"
proof -
  have h: "\<exists>c\<in>set (cp ''olive oil''). \<not> word_char ascii_lib c" by code_simp
  show ?thesis
    using nonword_ingredient_never_filters [OF ascii_lower_keeps_nonword h,
        of "example_intents\<lparr>ingredients := [cp ''olive oil'', cp ''chicken'']\<rparr>"
           "cp ''chicken with olive oil''" True example_corpus]
    by blast
qed

section \<open>Whether the filter can raise\<close>

text \<open>
  Whether \<open>filter_recipes\<close> can raise on a corpus that satisfies the invariant of the data
  model depends on what \<open>df[df[col].apply(f)]\<close> returns for a frame without rows. If the
  frame keeps its columns, every call returns a frame. If it loses them, a stage that
  finds the frame empty is followed by a stage that reads a column, and that read raises
  \<open>KeyError\<close>: below, the tag filter leaves one recipe, the first ingredient filter none,
  the second ingredient filter meets the empty frame, and the time stage reads
  \<open>minutes\<close>.
\<close>

lemma row_mask_total:
  "\<forall>r\<in>set rs. \<exists>b. f r = Inr b \<Longrightarrow> \<exists>out. row_mask f rs = Inr out \<and> set out \<subseteq> set rs"
  by (induction rs) (auto split: sum.splits)

lemma any_tag_total:
  "list_all (\<lambda>e. case e of Str s \<Rightarrow> True | NonStr s \<Rightarrow> False) es
     \<Longrightarrow> \<exists>b. any_tag L tf es = Inr b"
  by (induction L tf es rule: any_tag.induct) auto

lemma tag_test_total: "well_formed r \<Longrightarrow> \<exists>b. tag_test L tf r = Inr b"
  by (auto simp: well_formed_def strings_only_def tag_test_def any_tag_total split: cell.splits)

lemma cuisine_test_total: "\<exists>b. cuisine_test L uc r = Inr b"
  by (cases "recipe_tags r") (auto simp: cuisine_test_def)

lemma ingredient_test_total: "\<exists>b. ingredient_test L ing r = Inr b"
  by (cases "recipe_ingredients r") (auto simp: ingredient_test_def)

lemma mask_by_apply_kept:
  assumes "\<forall>r\<in>set rs. well_formed r" and "\<forall>r\<in>set rs. \<exists>b. f r = Inr b"
  shows "\<exists>out. mask_by_apply True f (Frame rs) = Inr (Frame out) \<and> (\<forall>r\<in>set out. well_formed r)"
proof (cases "rs = []")
  case True
  then show ?thesis by (simp add: mask_by_apply_def)
next
  case False
  from assms(2) obtain out where "row_mask f rs = Inr out" "set out \<subseteq> set rs"
    using row_mask_total by blast
  with False assms(1) show ?thesis by (auto simp: mask_by_apply_def)
qed

lemma tag_stage_kept:
  assumes "\<forall>r\<in>set rs. well_formed r"
  shows "\<exists>out. tag_stage L True tf uw (Frame rs) = Inr (Frame out)
           \<and> (\<forall>r\<in>set out. well_formed r)"
proof -
  have a: "\<forall>r\<in>set rs. \<exists>b. tag_test L tf r = Inr b"
    using assms tag_test_total by blast
  have b: "\<forall>r\<in>set rs. \<exists>b. cuisine_test L uc r = Inr b" for uc
    using cuisine_test_total by blast
  show ?thesis
    using mask_by_apply_kept [OF assms a] mask_by_apply_kept [OF assms b] assms
    by (auto simp: tag_stage_def Let_def)
qed

lemma ingredient_stage_kept:
  "\<forall>r\<in>set rs. well_formed r \<Longrightarrow>
   \<exists>out. ingredient_stage L True ings (Frame rs) = Inr (Frame out)
     \<and> (\<forall>r\<in>set out. well_formed r)"
proof (induction ings arbitrary: rs)
  case (Cons ing rest)
  have "\<forall>r\<in>set rs. \<exists>b. ingredient_test L ing r = Inr b"
    using ingredient_test_total by blast
  from mask_by_apply_kept [OF Cons.prems this]
  obtain mid where m: "mask_by_apply True (ingredient_test L ing) (Frame rs) = Inr (Frame mid)"
    and w: "\<forall>r\<in>set mid. well_formed r" by blast
  from Cons.IH [OF w] m show ?case by simp
qed simp

lemma time_stage_kept:
  assumes "\<forall>r\<in>set rs. well_formed r"
  shows "\<exists>out. time_stage values (Frame rs) = Inr (Frame out)"
proof -
  have "\<not> list_ex (\<lambda>r. minutes r = NotNum) rs"
    using assms by (auto simp: list_ex_iff well_formed_def)
  then show ?thesis by (simp add: time_stage_def mask_by_minutes_def)
qed

lemma filter_returns_if_columns_kept:
  assumes "\<forall>r\<in>set corpus. well_formed r"
  shows "\<exists>out. filter_recipes L True i u corpus = Inr (Frame out)"
proof -
  let ?uw = "set (findall_w L (str_lower L u))"
  from tag_stage_kept [OF assms]
  obtain a where a: "tag_stage L True (tag_filters_of L i) ?uw (Frame corpus) = Inr (Frame a)"
    and wa: "\<forall>r\<in>set a. well_formed r" by blast
  from ingredient_stage_kept [OF wa]
  obtain b where b: "ingredient_stage L True (ingredient_filters_of L i ?uw) (Frame a)
                       = Inr (Frame b)"
    and wb: "\<forall>r\<in>set b. well_formed r" by blast
  from time_stage_kept [OF wb]
  obtain c where "time_stage (time_constraint i) (Frame b) = Inr (Frame c)" by blast
  with a b show ?thesis
    by (simp add: filter_recipes_def filter_before_time_def Let_def)
qed

lemma example_corpus_well_formed: "\<forall>r\<in>set example_corpus. well_formed r"
  by code_simp

lemma filter_raises_if_columns_dropped:
  "filter_recipes ascii_lib False
     (example_intents\<lparr>meal_type := [], ingredients := [cp ''chicken'', cp ''beef'']\<rparr>)
     (cp ''quick vegan chicken beef'') example_corpus = Inl KeyMissing"
  by code_simp

end
